theory Spec2Isabelle
  imports Complex_Main "HOL-Library.Log_Nat"
begin

section \<open>Veritas Reputation Scoring (scoring.py)\<close>

text \<open>
  The module consists of five pure functions on numbers. Numbers are modelled as
  \<^typ>\<open>real\<close>. The three component scores are modelled in exact arithmetic: their
  properties are formulas and ranges, which the rounding error of a binary64 operation
  does not decide. \<^verbatim>\<open>calculate_VRS\<close> takes two discrete decisions, the weight test
  against a threshold and the rounding to two decimals, and both are taken on binary64
  values: there every arithmetic operation of the source is followed by the rounding
  \<open>b64\<close> to the nearest binary64 number, and every decimal literal stands for its nearest
  binary64 number. The exponent range of \<open>b64\<close> is unbounded: overflow to infinity,
  gradual underflow and NaN are not part of the model.

  The two parameters that the docstrings type as \<^verbatim>\<open>int\<close> (\<^verbatim>\<open>verification_count\<close>,
  \<^verbatim>\<open>update_frequency\<close>) are unbounded Python integers, hence \<^typ>\<open>int\<close>; multiplying
  one by a float literal converts it (\<open>of_int\<close>). The decimal literals of the component
  scores are written as fractions: \<open>0.02 = 2/100\<close>, \<open>0.1 = 1/10\<close>, \<open>0.05 = 5/100\<close>,
  \<open>0.15 = 15/100\<close>. Default argument values (\<^verbatim>\<open>verification_count=0\<close>,
  \<^verbatim>\<open>bias_score=0.0\<close>, \<^verbatim>\<open>relevance_decay=0.05\<close>, weights \<open>0.4, 0.4, 0.2\<close>) are passed
  explicitly.
\<close>

subsection \<open>Component scores\<close>

text \<open>
  \<^verbatim>\<open>
  def compute_S(credibility_score, source_reputation, verification_count=0):
      base_score = (credibility_score + source_reputation) / 2
      verification_bonus = min(verification_count * 0.02, 0.1)  # Cap at 0.1
      return min(base_score + verification_bonus, 1.0)
  \<close>
\<close>

definition compute_S :: "real \<Rightarrow> real \<Rightarrow> int \<Rightarrow> real" where
  "compute_S credibility_score source_reputation verification_count =
     (let base_score = (credibility_score + source_reputation) / 2;
          verification_bonus = min (of_int verification_count * (2 / 100)) (1 / 10)
      in min (base_score + verification_bonus) 1)"

text \<open>
  \<^verbatim>\<open>
  def compute_C(accuracy, completeness, bias_score=0.0):
      base_score = (accuracy + completeness) / 2
      return max(base_score - bias_score, 0.0)
  \<close>
\<close>

definition compute_C :: "real \<Rightarrow> real \<Rightarrow> real \<Rightarrow> real" where
  "compute_C accuracy completeness bias_score =
     (let base_score = (accuracy + completeness) / 2
      in max (base_score - bias_score) 0)"

text \<open>
  \<^verbatim>\<open>
  def compute_T(age_days, update_frequency=0, relevance_decay=0.05):
      # Exponential decay based on age
      base_score = max(1.0 - (age_days * relevance_decay), 0.0)
      # Bonus for recent updates
      update_bonus = min(update_frequency * 0.05, 0.15)  # Cap at 0.15
      return min(base_score + update_bonus, 1.0)
  \<close>
\<close>

definition compute_T :: "real \<Rightarrow> int \<Rightarrow> real \<Rightarrow> real" where
  "compute_T age_days update_frequency relevance_decay =
     (let base_score = max (1 - age_days * relevance_decay) 0;
          update_bonus = min (of_int update_frequency * (5 / 100)) (15 / 100)
      in min (base_score + update_bonus) 1)"

subsection \<open>Rounding to the nearest integer, ties to even\<close>

definition round_half_even :: "real \<Rightarrow> int" where
  "round_half_even y =
     (let f = \<lfloor>y\<rfloor>; d = y - of_int f
      in if d < 1 / 2 then f
         else if 1 / 2 < d then f + 1
         else if even f then f else f + 1)"

subsection \<open>Binary64 arithmetic\<close>

text \<open>
  \<open>binade x\<close> is the exponent \<open>e\<close> with \<open>2 ^ e \<le> \<bar>x\<bar> < 2 ^ (e + 1)\<close>, computed on
  integers: for \<open>\<bar>x\<bar> \<ge> 1\<close> from the bit length of \<open>\<lfloor>\<bar>x\<bar>\<rfloor>\<close>, for \<open>\<bar>x\<bar> < 1\<close> from the bit
  length of \<open>\<lceil>1 / \<bar>x\<bar>\<rceil> - 1\<close>. \<open>b64 x\<close> is the multiple of \<open>2 ^ (e - 52)\<close> nearest to \<open>x\<close>,
  the one with the even multiplier at a tie: the binary64 number that an IEEE 754
  operation with exact result \<open>x\<close> returns (round to nearest, ties to even, 53 significant
  bits), and the value of a decimal literal \<open>x\<close>.
\<close>

definition binade :: "real \<Rightarrow> int" where
  "binade x =
     (if 1 \<le> \<bar>x\<bar> then int (floorlog 2 (nat \<lfloor>\<bar>x\<bar>\<rfloor>)) - 1
      else - int (floorlog 2 (nat (\<lceil>1 / \<bar>x\<bar>\<rceil> - 1))))"

definition b64 :: "real \<Rightarrow> real" where
  "b64 x =
     (if x = 0 then 0
      else let q = power_int 2 (binade x - 52)
           in of_int (round_half_even (x / q)) * q)"

subsection \<open>Python's \<^verbatim>\<open>round(x, ndigits)\<close>\<close>

text \<open>
  On a float \<open>x\<close> the builtin takes the exact value of \<open>x\<close>, rounds it to the closest
  multiple of \<open>10 ^ (- ndigits)\<close>, to the one whose last digit is even when two are
  equally close, and returns the binary64 number nearest to that decimal. \<open>py_round\<close> is
  the decimal; the caller applies \<open>b64\<close> to it.
\<close>

definition py_round :: "real \<Rightarrow> nat \<Rightarrow> real" where
  "py_round x ndigits = of_int (round_half_even (x * 10 ^ ndigits)) / 10 ^ ndigits"

subsection \<open>The weighted score\<close>

text \<open>
  \<^verbatim>\<open>
  def calculate_VRS(S, C, T, w1=0.4, w2=0.4, w3=0.2):
      if abs((w1 + w2 + w3) - 1.0) > 0.01:
          raise ValueError(f"Weights must sum to 1.0 (got {w1 + w2 + w3})")
      vrs = (w1 * S) + (w2 * C) + (w3 * T)
      return round(vrs, 2)
  \<close>
  Python evaluates \<^verbatim>\<open>w1 + w2 + w3\<close> and the sum of the three products from left to
  right, rounding after each operation; \<^verbatim>\<open>abs\<close> is exact. The \<^verbatim>\<open>ValueError\<close> is the
  only exception the module raises; the specification calls it InvalidWeights. It carries
  the sum that the message reports.
\<close>

datatype error = InvalidWeights real

definition calculate_VRS ::
  "real \<Rightarrow> real \<Rightarrow> real \<Rightarrow> real \<Rightarrow> real \<Rightarrow> real \<Rightarrow> error + real" where
  "calculate_VRS S C T w1 w2 w3 =
     (if \<bar>b64 (b64 (b64 (w1 + w2) + w3) - 1)\<bar> > b64 (1 / 100)
      then Inl (InvalidWeights (b64 (b64 (w1 + w2) + w3)))
      else let vrs = b64 (b64 (b64 (w1 * S) + b64 (w2 * C)) + b64 (w3 * T))
           in Inr (b64 (py_round vrs 2)))"

text \<open>
  \<^verbatim>\<open>
  def calculate_VRS_from_raw(credibility_score, source_reputation, verification_count,
                             accuracy, completeness, bias_score,
                             age_days, update_frequency, relevance_decay=0.05,
                             w1=0.4, w2=0.4, w3=0.2):
      S = compute_S(credibility_score, source_reputation, verification_count)
      C = compute_C(accuracy, completeness, bias_score)
      T = compute_T(age_days, update_frequency, relevance_decay)
      return calculate_VRS(S, C, T, w1, w2, w3)
  \<close>
\<close>

definition calculate_VRS_from_raw ::
  "real \<Rightarrow> real \<Rightarrow> int \<Rightarrow> real \<Rightarrow> real \<Rightarrow> real \<Rightarrow> real \<Rightarrow> int \<Rightarrow> real
     \<Rightarrow> real \<Rightarrow> real \<Rightarrow> real \<Rightarrow> error + real" where
  "calculate_VRS_from_raw credibility_score source_reputation verification_count
       accuracy completeness bias_score age_days update_frequency relevance_decay
       w1 w2 w3 =
     (let S = compute_S credibility_score source_reputation verification_count;
          C = compute_C accuracy completeness bias_score;
          T = compute_T age_days update_frequency relevance_decay
      in calculate_VRS S C T w1 w2 w3)"

subsection \<open>The specification's rounding rule\<close>

text \<open>
  Round-half-to-even as the specification words it: \<open>k\<close> is a nearest integer of \<open>y\<close>,
  and when \<open>y\<close> lies exactly half way between two integers, \<open>k\<close> is the even one.
\<close>

definition nearest_ties_even :: "real \<Rightarrow> int \<Rightarrow> bool" where
  "nearest_ties_even y k \<longleftrightarrow>
     \<bar>y - of_int k\<bar> \<le> 1 / 2 \<and> (\<bar>y - of_int k\<bar> = 1 / 2 \<longrightarrow> even k)"

section \<open>Facts about rounding\<close>

lemma round_half_even_nearest: "nearest_ties_even y (round_half_even y)"
  unfolding nearest_ties_even_def round_half_even_def Let_def
  by (auto; linarith?)

lemma nearest_ties_even_unique:
  assumes "nearest_ties_even y k" and "nearest_ties_even y k'"
  shows "k = k'"
proof -
  from assms have b: "\<bar>y - of_int k\<bar> \<le> 1 / 2" "\<bar>y - of_int k'\<bar> \<le> 1 / 2"
    by (simp_all add: nearest_ties_even_def)
  then have "\<bar>real_of_int k - of_int k'\<bar> \<le> 1" by linarith
  then have "\<bar>real_of_int (k - k')\<bar> \<le> 1" by simp
  then have d: "\<bar>k - k'\<bar> \<le> 1" by linarith
  show ?thesis
  proof (rule ccontr)
    assume "k \<noteq> k'"
    with d consider (up) "k' = k + 1" | (down) "k = k' + 1" by linarith
    then show False
    proof cases
      case up
      with b have "y = of_int k + 1 / 2" by simp
      with up have "\<bar>y - of_int k\<bar> = 1 / 2" "\<bar>y - of_int k'\<bar> = 1 / 2" by simp_all
      with assms have "even k" "even k'" by (simp_all add: nearest_ties_even_def)
      with up show False by simp
    next
      case down
      with b have "y = of_int k' + 1 / 2" by simp
      with down have "\<bar>y - of_int k\<bar> = 1 / 2" "\<bar>y - of_int k'\<bar> = 1 / 2" by simp_all
      with assms have "even k" "even k'" by (simp_all add: nearest_ties_even_def)
      with down show False by simp
    qed
  qed
qed

lemma round_half_even_le:
  assumes "y \<le> of_int k"
  shows "round_half_even y \<le> k"
proof (cases "\<lfloor>y\<rfloor> < k")
  case True
  then show ?thesis by (simp add: round_half_even_def Let_def)
next
  case False
  moreover from assms have "\<lfloor>y\<rfloor> \<le> k" by (simp add: floor_le_iff)
  ultimately have "\<lfloor>y\<rfloor> = k" by simp
  moreover with assms have "y = of_int k" by (metis of_int_floor_le order_antisym)
  ultimately show ?thesis by (simp add: round_half_even_def)
qed

lemma round_half_even_ge:
  assumes "of_int k \<le> y"
  shows "k \<le> round_half_even y"
proof -
  from assms have "k \<le> \<lfloor>y\<rfloor>" by (simp add: le_floor_iff)
  then show ?thesis by (simp add: round_half_even_def Let_def)
qed

lemma py_round_2_le:
  assumes "x \<le> of_int k / 100"
  shows "py_round x 2 \<le> of_int k / 100"
proof -
  from assms have "x * 100 \<le> of_int k" by simp
  then have "round_half_even (x * 100) \<le> k" by (rule round_half_even_le)
  then have "real_of_int (round_half_even (x * 100)) \<le> of_int k" by simp
  then show ?thesis by (simp add: py_round_def divide_right_mono)
qed

lemma py_round_2_ge:
  assumes "of_int k / 100 \<le> x"
  shows "of_int k / 100 \<le> py_round x 2"
proof -
  from assms have "of_int k \<le> x * 100" by simp
  then have "k \<le> round_half_even (x * 100)" by (rule round_half_even_ge)
  then have "real_of_int k \<le> of_int (round_half_even (x * 100))" by simp
  then show ?thesis by (simp add: py_round_def divide_right_mono)
qed

lemma round_half_even_below_half:
  assumes "y < of_int k + 1 / 2"
  shows "round_half_even y \<le> k"
proof (cases "y \<le> of_int k")
  case True
  then show ?thesis by (rule round_half_even_le)
next
  case False
  with assms have "of_int k \<le> y" "y < of_int k + 1" by simp_all
  then have "\<lfloor>y\<rfloor> = k" by (simp add: floor_eq_iff)
  with assms show ?thesis by (simp add: round_half_even_def Let_def)
qed

lemma round_half_even_mono:
  assumes "x \<le> y"
  shows "round_half_even x \<le> round_half_even y"
proof -
  have "\<bar>y - of_int (round_half_even y)\<bar> \<le> 1 / 2"
    using round_half_even_nearest [of y] by (simp add: nearest_ties_even_def)
  with assms have le: "x \<le> of_int (round_half_even y) + 1 / 2" by linarith
  show ?thesis
  proof (cases "x < of_int (round_half_even y) + 1 / 2")
    case True
    then show ?thesis by (rule round_half_even_below_half)
  next
    case False
    with le have "x = of_int (round_half_even y) + 1 / 2" by simp
    moreover from this assms \<open>\<bar>y - of_int (round_half_even y)\<bar> \<le> 1 / 2\<close>
    have "y = of_int (round_half_even y) + 1 / 2" by linarith
    ultimately have "x = y" by simp
    then show ?thesis by simp
  qed
qed

lemma round_half_even_minus: "round_half_even (- y) = - round_half_even y"
proof -
  have "nearest_ties_even (- y) (- round_half_even y)"
    using round_half_even_nearest [of y]
    by (simp add: nearest_ties_even_def abs_minus_commute)
  then show ?thesis
    using nearest_ties_even_unique round_half_even_nearest by blast
qed

section \<open>Facts about binary64 rounding\<close>

lemma nat_pow2_real:
  fixes n k :: nat
  assumes "2 ^ (k - 1) \<le> n" and "n < 2 ^ k"
  shows "(2::real) ^ (k - 1) \<le> real n" and "real n + 1 \<le> 2 ^ k"
proof -
  from assms(1) have "real (2 ^ (k - 1)) \<le> real n" by (simp only: of_nat_le_iff)
  then show "(2::real) ^ (k - 1) \<le> real n" by simp
  from assms(2) have "Suc n \<le> 2 ^ k" by simp
  then have "real (Suc n) \<le> real (2 ^ k)" by (simp only: of_nat_le_iff)
  then show "real n + 1 \<le> 2 ^ k" by simp
qed

lemma floorlog_pos: "0 < n \<Longrightarrow> 0 < floorlog 2 n"
  by (simp add: floorlog_def)

lemma power_int_pred:
  assumes "0 < k"
  shows "power_int (2::real) (int k - 1) = 2 ^ (k - 1)"
proof -
  from assms have "int k - 1 = int (k - 1)" by simp
  then show ?thesis by (simp only: power_int_of_nat)
qed

lemma power_int_neg_succ:
  assumes "0 < k"
  shows "power_int (2::real) (- int k + 1) = 1 / 2 ^ (k - 1)"
proof -
  from assms have "- int k + 1 = - int (k - 1)" by simp
  then have "power_int (2::real) (- int k + 1) = power_int 2 (- int (k - 1))"
    by (rule arg_cong)
  also have "\<dots> = 1 / 2 ^ (k - 1)" by (simp only: power_int_minus_divide power_int_of_nat)
  finally show ?thesis .
qed

lemma binade_bounds:
  assumes "x \<noteq> 0"
  shows "power_int 2 (binade x) \<le> \<bar>x\<bar> \<and> \<bar>x\<bar> < power_int 2 (binade x + 1)"
proof (cases "1 \<le> \<bar>x\<bar>")
  case True
  define n where "n = nat \<lfloor>\<bar>x\<bar>\<rfloor>"
  define k where "k = floorlog 2 n"
  from True have n: "0 < n" by (simp add: n_def)
  then have "2 ^ (k - 1) \<le> n \<and> n < 2 ^ k"
    unfolding k_def by (intro floorlog_bounds) simp_all
  then have fb: "(2::real) ^ (k - 1) \<le> real n" "real n + 1 \<le> 2 ^ k"
    by (simp_all add: nat_pow2_real)
  from n have k: "0 < k" unfolding k_def by (rule floorlog_pos)
  have be: "binade x = int k - 1" using True by (simp add: binade_def n_def k_def)
  have "real n = of_int \<lfloor>\<bar>x\<bar>\<rfloor>" by (simp add: n_def)
  then have nx: "real n \<le> \<bar>x\<bar>" "\<bar>x\<bar> < real n + 1" by linarith+
  have p2: "power_int (2::real) (int k - 1 + 1) = 2 ^ k" by simp
  from fb nx show ?thesis unfolding be p2 power_int_pred [OF k] by linarith
next
  case False
  define y where "y = 1 / \<bar>x\<bar>"
  define j where "j = nat (\<lceil>y\<rceil> - 1)"
  define k where "k = floorlog 2 j"
  from assms have xpos: "0 < \<bar>x\<bar>" by simp
  with False have y1: "1 < y" by (simp add: y_def)
  then have c2: "2 \<le> \<lceil>y\<rceil>" by linarith
  then have j: "0 < j" by (simp add: j_def)
  then have "2 ^ (k - 1) \<le> j \<and> j < 2 ^ k"
    unfolding k_def by (intro floorlog_bounds) simp_all
  then have fb: "(2::real) ^ (k - 1) \<le> real j" "real j + 1 \<le> 2 ^ k"
    by (simp_all add: nat_pow2_real)
  from j have k: "0 < k" unfolding k_def by (rule floorlog_pos)
  have be: "binade x = - int k" using False by (simp add: binade_def j_def k_def y_def)
  from c2 have "real j = of_int \<lceil>y\<rceil> - 1" by (simp add: j_def)
  then have jy: "real j < y" "y \<le> real j + 1" by linarith+
  with fb have yb: "2 ^ (k - 1) < y" "y \<le> 2 ^ k" by linarith+
  have p1: "power_int (2::real) (- int k) = 1 / 2 ^ k"
    by (simp only: power_int_minus_divide power_int_of_nat)
  from xpos have xy: "\<bar>x\<bar> = 1 / y" by (simp add: y_def)
  from y1 have ypos: "0 < y" by simp
  from yb(2) ypos have a: "1 / 2 ^ k \<le> 1 / y" by (simp add: frac_le)
  have "(0::real) < 2 ^ (k - 1)" by simp
  with yb(1) have b: "1 / y < 1 / 2 ^ (k - 1)" by (simp add: frac_less2)
  from a b show ?thesis unfolding be p1 power_int_neg_succ [OF k] xy by simp
qed

lemma ulp_scale:
  fixes e :: int
  shows "power_int (2::real) e = 2 ^ 52 * power_int 2 (e - 52)"
    and "power_int (2::real) (e + 1) = 2 ^ 53 * power_int 2 (e - 52)"
proof -
  have "power_int (2::real) (52 + (e - 52)) = power_int 2 52 * power_int 2 (e - 52)"
    by (rule power_int_add) simp
  then show "power_int (2::real) e = 2 ^ 52 * power_int 2 (e - 52)" by simp
  have "power_int (2::real) (53 + (e - 52)) = power_int 2 53 * power_int 2 (e - 52)"
    by (rule power_int_add) simp
  moreover have "53 + (e - 52) = e + 1" by simp
  ultimately show "power_int (2::real) (e + 1) = 2 ^ 53 * power_int 2 (e - 52)" by simp
qed

lemma b64_pos_bounds:
  assumes "0 < x"
  shows "power_int 2 (binade x) \<le> b64 x" and "b64 x \<le> power_int 2 (binade x + 1)"
proof -
  define q :: real where "q = power_int 2 (binade x - 52)"
  have q: "0 < q" by (simp add: q_def)
  from assms have "x \<noteq> 0" by simp
  then have br: "power_int 2 (binade x) \<le> \<bar>x\<bar> \<and> \<bar>x\<bar> < power_int 2 (binade x + 1)"
    by (rule binade_bounds)
  with assms have "2 ^ 52 * q \<le> x" "x \<le> 2 ^ 53 * q"
    by (simp_all add: ulp_scale [of "binade x", folded q_def])
  with q have "2 ^ 52 \<le> x / q" "x / q \<le> 2 ^ 53"
    by (simp_all add: pos_le_divide_eq pos_divide_le_eq)
  then have sc: "real_of_int (2 ^ 52) \<le> x / q" "x / q \<le> real_of_int (2 ^ 53)" by simp_all
  have "2 ^ 52 \<le> round_half_even (x / q)" using sc(1) by (rule round_half_even_ge)
  moreover have "round_half_even (x / q) \<le> 2 ^ 53" using sc(2) by (rule round_half_even_le)
  ultimately have "2 ^ 52 \<le> round_half_even (x / q)" "round_half_even (x / q) \<le> 2 ^ 53"
    by blast+
  then have "real_of_int (2 ^ 52) \<le> of_int (round_half_even (x / q))"
    "real_of_int (round_half_even (x / q)) \<le> of_int (2 ^ 53)"
    by (simp_all only: of_int_le_iff)
  with q have "2 ^ 52 * q \<le> of_int (round_half_even (x / q)) * q"
    "of_int (round_half_even (x / q)) * q \<le> 2 ^ 53 * q"
    by simp_all
  moreover from \<open>x \<noteq> 0\<close> have "b64 x = of_int (round_half_even (x / q)) * q"
    by (simp add: b64_def q_def Let_def)
  ultimately show "power_int 2 (binade x) \<le> b64 x" and "b64 x \<le> power_int 2 (binade x + 1)"
    by (simp_all add: ulp_scale [of "binade x", folded q_def])
qed

lemma binade_mono:
  assumes "0 < x" and "x \<le> y"
  shows "binade x \<le> binade y"
proof -
  from assms have nz: "x \<noteq> 0" "y \<noteq> 0" by simp_all
  from binade_bounds [OF nz(1)] binade_bounds [OF nz(2)] assms
  have "power_int (2::real) (binade x) < power_int 2 (binade y + 1)" by simp
  then have "\<not> binade y + 1 \<le> binade x"
    using power_int_increasing [of "binade y + 1" "binade x" "2::real"] by auto
  then show ?thesis by simp
qed

lemma b64_mono_pos:
  assumes "0 < x" and "x \<le> y"
  shows "b64 x \<le> b64 y"
proof (cases "binade x = binade y")
  case True
  define q :: real where "q = power_int 2 (binade x - 52)"
  have q: "0 < q" by (simp add: q_def)
  from assms have nz: "x \<noteq> 0" "y \<noteq> 0" by simp_all
  from assms q have "x / q \<le> y / q" by (simp add: divide_right_mono)
  then have "round_half_even (x / q) \<le> round_half_even (y / q)" by (rule round_half_even_mono)
  then have "real_of_int (round_half_even (x / q)) \<le> of_int (round_half_even (y / q))"
    by (simp only: of_int_le_iff)
  with q have "of_int (round_half_even (x / q)) * q \<le> of_int (round_half_even (y / q)) * q"
    by simp
  with nz True show ?thesis by (simp add: b64_def q_def Let_def)
next
  case False
  with binade_mono [OF assms] have "binade x + 1 \<le> binade y" by simp
  then have "power_int (2::real) (binade x + 1) \<le> power_int 2 (binade y)"
    by (rule power_int_increasing) simp
  moreover from assms have "0 < y" by simp
  ultimately show ?thesis
    using b64_pos_bounds(2) [OF assms(1)] b64_pos_bounds(1) [OF \<open>0 < y\<close>] by linarith
qed

lemma binade_minus: "binade (- x) = binade x"
  by (simp add: binade_def)

lemma b64_minus: "b64 (- x) = - b64 x"
proof (cases "x = 0")
  case True
  then show ?thesis by (simp add: b64_def)
next
  case False
  have "round_half_even (- x / power_int 2 (binade x - 52))
      = - round_half_even (x / power_int 2 (binade x - 52))"
    using round_half_even_minus [of "x / power_int 2 (binade x - 52)"] by simp
  with False show ?thesis by (simp add: b64_def binade_minus Let_def)
qed

lemma b64_zero: "b64 0 = 0"
  by (simp add: b64_def)

lemma b64_pos: "0 < x \<Longrightarrow> 0 < b64 x"
proof -
  assume "0 < x"
  then have "power_int 2 (binade x) \<le> b64 x" by (rule b64_pos_bounds)
  moreover have "(0::real) < power_int 2 (binade x)" by simp
  ultimately show ?thesis by linarith
qed

lemma b64_mono:
  assumes "x \<le> y"
  shows "b64 x \<le> b64 y"
proof -
  consider (pos) "0 < x" | (neg) "y < 0" | (mid) "x \<le> 0" "0 \<le> y" by linarith
  then show ?thesis
  proof cases
    case pos
    then show ?thesis using assms by (rule b64_mono_pos)
  next
    case neg
    with assms have "0 < - y" "- y \<le> - x" by simp_all
    then have "b64 (- y) \<le> b64 (- x)" by (rule b64_mono_pos)
    then show ?thesis by (simp add: b64_minus)
  next
    case mid
    have "b64 x \<le> 0"
    proof (cases "x = 0")
      case True then show ?thesis by (simp add: b64_zero)
    next
      case False
      with mid have "0 < - x" by simp
      then have "0 < b64 (- x)" by (rule b64_pos)
      then show ?thesis by (simp add: b64_minus)
    qed
    moreover have "0 \<le> b64 y"
    proof (cases "y = 0")
      case True then show ?thesis by (simp add: b64_zero)
    next
      case False
      with mid have "0 < y" by simp
      then have "0 < b64 y" by (rule b64_pos)
      then show ?thesis by simp
    qed
    ultimately show ?thesis by simp
  qed
qed

lemma b64_nonneg: "0 \<le> x \<Longrightarrow> 0 \<le> b64 x"
  using b64_mono [of 0 x] by (simp add: b64_zero)

lemma b64_rel_error: "\<bar>b64 x - x\<bar> \<le> \<bar>x\<bar> / 2 ^ 53"
proof (cases "x = 0")
  case True
  then show ?thesis by (simp add: b64_def)
next
  case False
  define q :: real where "q = power_int 2 (binade x - 52)"
  define k where "k = round_half_even (x / q)"
  have q: "0 < q" by (simp add: q_def)
  have "\<bar>x / q - of_int k\<bar> \<le> 1 / 2"
    using round_half_even_nearest [of "x / q"] by (simp add: nearest_ties_even_def k_def)
  then have "\<bar>x / q - of_int k\<bar> * q \<le> 1 / 2 * q"
    using q by (simp only: mult_right_mono less_imp_le)
  moreover have "\<bar>x / q - of_int k\<bar> * q = \<bar>x - of_int k * q\<bar>"
  proof -
    have "\<bar>x / q - of_int k\<bar> * q = \<bar>(x / q - of_int k) * q\<bar>"
      using q by (simp add: abs_mult)
    also have "(x / q - of_int k) * q = x - of_int k * q"
      using q by (simp add: field_simps)
    finally show ?thesis .
  qed
  ultimately have e: "\<bar>x - of_int k * q\<bar> \<le> q / 2" by simp
  from False have "power_int 2 (binade x) \<le> \<bar>x\<bar>" using binade_bounds by blast
  then have "2 ^ 52 * q \<le> \<bar>x\<bar>" by (simp add: ulp_scale(1) [of "binade x", folded q_def])
  then have "q / 2 \<le> \<bar>x\<bar> / 2 ^ 53" by simp
  moreover from False have "b64 x = of_int k * q" by (simp add: b64_def q_def k_def Let_def)
  ultimately show ?thesis using e by (simp add: abs_minus_commute)
qed

lemma b64_nonneg_bounds:
  assumes "0 \<le> x"
  shows "x * (1 - 1 / 2 ^ 53) \<le> b64 x" and "b64 x \<le> x * (1 + 1 / 2 ^ 53)"
proof -
  from assms b64_rel_error [of x] have "\<bar>b64 x - x\<bar> \<le> x / 2 ^ 53" by simp
  then have "x - x / 2 ^ 53 \<le> b64 x" "b64 x \<le> x + x / 2 ^ 53" by linarith+
  then show "x * (1 - 1 / 2 ^ 53) \<le> b64 x" and "b64 x \<le> x * (1 + 1 / 2 ^ 53)"
    by (simp_all add: algebra_simps)
qed

lemma b64_one: "b64 1 = 1"
  by code_simp

lemma b64_tolerance_below: "b64 (1 / 100) < 3 / 256"
  by code_simp

lemma b64_3_256: "b64 (3 / 256) = 3 / 256"
  by code_simp

lemma b64_just_above_one: "b64 (1 + 1 / 2 ^ 53) = 1"
  by code_simp

lemma b64_above_tolerance: "b64 (1 / 100) < b64 (1 / 100 + 1 / (2 * 10 ^ 15))"
  by code_simp

lemma binary64_sum_bounds:
  assumes dom: "0 \<le> S" "S \<le> 1" "0 \<le> C" "C \<le> 1" "0 \<le> T" "T \<le> 1"
    and w: "0 \<le> w1" "0 \<le> w2" "0 \<le> w3"
    and rep: "b64 w1 = w1" "b64 w2 = w2" "b64 w3 = w3"
  shows "0 \<le> b64 (b64 (b64 (w1 * S) + b64 (w2 * C)) + b64 (w3 * T))"
    and "b64 (b64 (b64 (w1 * S) + b64 (w2 * C)) + b64 (w3 * T)) \<le> b64 (b64 (w1 + w2) + w3)"
proof -
  from dom w have p: "0 \<le> w1 * S" "0 \<le> w2 * C" "0 \<le> w3 * T" by simp_all
  then have n: "0 \<le> b64 (w1 * S)" "0 \<le> b64 (w2 * C)" "0 \<le> b64 (w3 * T)"
    by (simp_all only: b64_nonneg)
  then have "0 \<le> b64 (w1 * S) + b64 (w2 * C)" by linarith
  then have "0 \<le> b64 (b64 (w1 * S) + b64 (w2 * C))" by (rule b64_nonneg)
  with n have "0 \<le> b64 (b64 (w1 * S) + b64 (w2 * C)) + b64 (w3 * T)" by linarith
  then show "0 \<le> b64 (b64 (b64 (w1 * S) + b64 (w2 * C)) + b64 (w3 * T))"
    by (rule b64_nonneg)
  from dom w have "w1 * S \<le> w1 * 1" "w2 * C \<le> w2 * 1" "w3 * T \<le> w3 * 1"
    by (simp_all only: mult_left_mono)
  then have "w1 * S \<le> w1" "w2 * C \<le> w2" "w3 * T \<le> w3" by simp_all
  then have "b64 (w1 * S) \<le> b64 w1" "b64 (w2 * C) \<le> b64 w2" "b64 (w3 * T) \<le> b64 w3"
    by (simp_all only: b64_mono)
  with rep have le: "b64 (w1 * S) \<le> w1" "b64 (w2 * C) \<le> w2" "b64 (w3 * T) \<le> w3"
    by simp_all
  then have "b64 (w1 * S) + b64 (w2 * C) \<le> w1 + w2" by linarith
  then have "b64 (b64 (w1 * S) + b64 (w2 * C)) \<le> b64 (w1 + w2)" by (rule b64_mono)
  with le have "b64 (b64 (w1 * S) + b64 (w2 * C)) + b64 (w3 * T) \<le> b64 (w1 + w2) + w3"
    by linarith
  then show "b64 (b64 (b64 (w1 * S) + b64 (w2 * C)) + b64 (w3 * T)) \<le> b64 (b64 (w1 + w2) + w3)"
    by (rule b64_mono)
qed

lemma accepted_sum_below:
  assumes "\<bar>b64 (s - 1)\<bar> \<le> b64 (1 / 100)"
  shows "s \<le> 1 + 3 / 256"
proof (rule ccontr)
  assume "\<not> s \<le> 1 + 3 / 256"
  then have "3 / 256 \<le> s - 1" by simp
  then have "b64 (3 / 256) \<le> b64 (s - 1)" by (rule b64_mono)
  with b64_3_256 have "3 / 256 \<le> b64 (s - 1)" by simp
  with assms b64_tolerance_below show False by linarith
qed

lemma exact_sum_le_one:
  assumes w: "0 \<le> w1" "0 \<le> w2" "0 \<le> w3" and le: "w1 + w2 + w3 \<le> 1"
  shows "b64 (b64 (w1 + w2) + w3) \<le> 1"
proof -
  from w have "0 \<le> w1 + w2" by simp
  then have "b64 (w1 + w2) \<le> (w1 + w2) * (1 + 1 / 2 ^ 53)" by (rule b64_nonneg_bounds)
  moreover from w le have "(w1 + w2) * (1 / 2 ^ 53) \<le> 1 * (1 / 2 ^ 53)"
    by (intro mult_right_mono) simp_all
  ultimately have "b64 (w1 + w2) \<le> w1 + w2 + 1 / 2 ^ 53" by (simp add: algebra_simps)
  with le have "b64 (w1 + w2) + w3 \<le> 1 + 1 / 2 ^ 53" by linarith
  then have "b64 (b64 (w1 + w2) + w3) \<le> b64 (1 + 1 / 2 ^ 53)" by (rule b64_mono)
  with b64_just_above_one show ?thesis by simp
qed

lemma binary64_weight_sum_close:
  assumes w: "0 \<le> w1" "0 \<le> w2" "0 \<le> w3"
  shows "(w1 + w2 + w3) * (1 - 1 / 2 ^ 52) \<le> b64 (b64 (w1 + w2) + w3)"
    and "b64 (b64 (w1 + w2) + w3) \<le> (w1 + w2 + w3) * (1 + 1 / 2 ^ 51)"
proof -
  define a where "a = b64 (w1 + w2)"
  define s where "s = b64 (a + w3)"
  from w have n: "0 \<le> w1 + w2" by simp
  then have a: "(w1 + w2) * (1 - 1 / 2 ^ 53) \<le> a" "a \<le> (w1 + w2) * (1 + 1 / 2 ^ 53)"
    unfolding a_def by (rule b64_nonneg_bounds)+
  from n have "0 \<le> a" unfolding a_def by (rule b64_nonneg)
  with w have "0 \<le> a + w3" by simp
  then have s: "(a + w3) * (1 - 1 / 2 ^ 53) \<le> s" "s \<le> (a + w3) * (1 + 1 / 2 ^ 53)"
    unfolding s_def by (rule b64_nonneg_bounds)+
  have lo: "(w1 + w2 + w3) * (1 - 1 / 2 ^ 52) \<le> (a + w3) * (1 - 1 / 2 ^ 53)"
  proof -
    from a(1) w have "(w1 + w2 + w3) * (1 - 1 / 2 ^ 53) \<le> a + w3" by (simp add: algebra_simps)
    then have "(w1 + w2 + w3) * (1 - 1 / 2 ^ 53) * (1 - 1 / 2 ^ 53) \<le> (a + w3) * (1 - 1 / 2 ^ 53)"
      by (intro mult_right_mono) simp_all
    moreover have "(1 - 1 / 2 ^ 52) \<le> (1 - 1 / 2 ^ 53) * (1 - 1 / 2 ^ 53 :: real)" by simp
    then have "(w1 + w2 + w3) * (1 - 1 / 2 ^ 52)
        \<le> (w1 + w2 + w3) * ((1 - 1 / 2 ^ 53) * (1 - 1 / 2 ^ 53))"
      using w by (intro mult_left_mono) simp_all
    ultimately show ?thesis by (simp only: mult.assoc)
  qed
  have hi: "(a + w3) * (1 + 1 / 2 ^ 53) \<le> (w1 + w2 + w3) * (1 + 1 / 2 ^ 51)"
  proof -
    from a(2) w have "a + w3 \<le> (w1 + w2 + w3) * (1 + 1 / 2 ^ 53)" by (simp add: algebra_simps)
    then have "(a + w3) * (1 + 1 / 2 ^ 53) \<le> (w1 + w2 + w3) * (1 + 1 / 2 ^ 53) * (1 + 1 / 2 ^ 53)"
      by (intro mult_right_mono) simp_all
    moreover have "(1 + 1 / 2 ^ 53) * (1 + 1 / 2 ^ 53 :: real) \<le> 1 + 1 / 2 ^ 51" by simp
    then have "(w1 + w2 + w3) * ((1 + 1 / 2 ^ 53) * (1 + 1 / 2 ^ 53))
        \<le> (w1 + w2 + w3) * (1 + 1 / 2 ^ 51)"
      using w by (intro mult_left_mono) simp_all
    ultimately show ?thesis by (simp only: mult.assoc)
  qed
  from lo s(1) show "(w1 + w2 + w3) * (1 - 1 / 2 ^ 52) \<le> b64 (b64 (w1 + w2) + w3)"
    unfolding s_def a_def by linarith
  from hi s(2) show "b64 (b64 (w1 + w2) + w3) \<le> (w1 + w2 + w3) * (1 + 1 / 2 ^ 51)"
    unfolding s_def a_def by linarith
qed

lemma b64_tolerance_minus: "b64 (- (1 / 100)) = - b64 (1 / 100)"
  by (rule b64_minus)

lemma weights_near_one_accepted:
  assumes w: "0 \<le> w1" "0 \<le> w2" "0 \<le> w3"
    and t: "\<bar>w1 + w2 + w3 - 1\<bar> \<le> 1 / 100 - 1 / 10 ^ 15"
  shows "\<bar>b64 (b64 (b64 (w1 + w2) + w3) - 1)\<bar> \<le> b64 (1 / 100)"
proof -
  define s where "s = b64 (b64 (w1 + w2) + w3)"
  define t where "t = w1 + w2 + w3"
  from w have c: "t * (1 - 1 / 2 ^ 52) \<le> s" "s \<le> t * (1 + 1 / 2 ^ 51)"
    unfolding s_def t_def by (rule binary64_weight_sum_close)+
  from t have tb: "99 / 100 + 1 / 10 ^ 15 \<le> t" "t \<le> 101 / 100 - 1 / 10 ^ 15"
    unfolding t_def by linarith+
  from tb have "t * (1 / 2 ^ 51) \<le> (101 / 100) * (1 / 2 ^ 51)"
    by (intro mult_right_mono) simp_all
  also have "\<dots> \<le> (1 / 10 ^ 15 :: real)" by simp
  finally have u: "t * (1 / 2 ^ 51) \<le> 1 / 10 ^ 15" .
  from tb have "t * (1 / 2 ^ 52) \<le> (101 / 100) * (1 / 2 ^ 52)"
    by (intro mult_right_mono) simp_all
  also have "\<dots> \<le> (1 / 10 ^ 15 :: real)" by simp
  finally have l: "t * (1 / 2 ^ 52) \<le> 1 / 10 ^ 15" .
  from c(2) u have "s \<le> t + 1 / 10 ^ 15" by (simp add: algebra_simps)
  with tb have up: "s - 1 \<le> 1 / 100" by linarith
  from c(1) l have "t - 1 / 10 ^ 15 \<le> s" by (simp add: algebra_simps)
  with tb have lo: "- (1 / 100) \<le> s - 1" by linarith
  from up have "b64 (s - 1) \<le> b64 (1 / 100)" by (rule b64_mono)
  moreover from lo have "b64 (- (1 / 100)) \<le> b64 (s - 1)" by (rule b64_mono)
  ultimately show ?thesis unfolding s_def [symmetric] b64_tolerance_minus by linarith
qed

lemma weights_far_from_one_rejected:
  assumes w: "0 \<le> w1" "0 \<le> w2" "0 \<le> w3"
    and t: "1 / 100 + 1 / 10 ^ 15 \<le> \<bar>w1 + w2 + w3 - 1\<bar>"
  shows "b64 (1 / 100) < \<bar>b64 (b64 (b64 (w1 + w2) + w3) - 1)\<bar>"
proof -
  define s where "s = b64 (b64 (w1 + w2) + w3)"
  define t where "t = w1 + w2 + w3"
  define z :: real where "z = 1 / 100 + 1 / (2 * 10 ^ 15)"
  from w have c: "t * (1 - 1 / 2 ^ 52) \<le> s" "s \<le> t * (1 + 1 / 2 ^ 51)"
    unfolding s_def t_def by (rule binary64_weight_sum_close)+
  from w have t0: "0 \<le> t" unfolding t_def by simp
  have zb: "b64 (1 / 100) < b64 z" unfolding z_def by (rule b64_above_tolerance)
  from t consider (above) "101 / 100 + 1 / 10 ^ 15 \<le> t" | (below) "t \<le> 99 / 100 - 1 / 10 ^ 15"
    unfolding t_def by linarith
  then show ?thesis
  proof cases
    case above
    then have "(101 / 100 + 1 / 10 ^ 15) * (1 - 1 / 2 ^ 52) \<le> t * (1 - 1 / 2 ^ 52)"
      by (intro mult_right_mono) simp_all
    moreover have "1 + z \<le> (101 / 100 + 1 / 10 ^ 15) * (1 - 1 / 2 ^ 52)"
      unfolding z_def by simp
    ultimately have "z \<le> s - 1" using c(1) by linarith
    then have "b64 z \<le> b64 (s - 1)" by (rule b64_mono)
    with zb show ?thesis unfolding s_def [symmetric] by linarith
  next
    case below
    with t0 have "t * (1 + 1 / 2 ^ 51) \<le> (99 / 100 - 1 / 10 ^ 15) * (1 + 1 / 2 ^ 51)"
      by (intro mult_right_mono) simp_all
    moreover have "(99 / 100 - 1 / 10 ^ 15) * (1 + 1 / 2 ^ 51) \<le> 1 - z"
      unfolding z_def by simp
    ultimately have "s - 1 \<le> - z" using c(2) by linarith
    then have "b64 (s - 1) \<le> b64 (- z)" by (rule b64_mono)
    then have "b64 (s - 1) \<le> - b64 z" by (simp only: b64_minus)
    with zb show ?thesis unfolding s_def [symmetric] by linarith
  qed
qed

lemma binary64_weighted_sum_close:
  assumes p: "0 \<le> p1" "0 \<le> p2" "0 \<le> p3"
  shows "\<bar>b64 (b64 (b64 p1 + b64 p2) + b64 p3) - (p1 + p2 + p3)\<bar> \<le> (p1 + p2 + p3) / 2 ^ 51"
proof -
  define P1 where "P1 = b64 p1"
  define P2 where "P2 = b64 p2"
  define P3 where "P3 = b64 p3"
  define A where "A = b64 (P1 + P2)"
  define X where "X = b64 (A + P3)"
  have n: "0 \<le> P1" "0 \<le> P2" "0 \<le> P3"
    using p unfolding P1_def P2_def P3_def by (simp_all only: b64_nonneg)
  then have "0 \<le> P1 + P2" by simp
  then have nA: "0 \<le> A" unfolding A_def by (rule b64_nonneg)
  with n have nAP: "0 \<le> A + P3" by simp
  note f =
    b64_nonneg_bounds [OF p(1), folded P1_def] b64_nonneg_bounds [OF p(2), folded P2_def]
    b64_nonneg_bounds [OF p(3), folded P3_def]
    b64_nonneg_bounds [OF \<open>0 \<le> P1 + P2\<close>, folded A_def]
    b64_nonneg_bounds [OF nAP, folded X_def]
  have lo: "(p1 + p2 + p3) * (1 - 1 / 2 ^ 51) \<le> X"
    using f p by (simp add: algebra_simps)
  have hi: "X \<le> (p1 + p2 + p3) * (1 + 1 / 2 ^ 51)"
    using f p by (simp add: algebra_simps)
  define e where "e = p1 + p2 + p3"
  from lo have "e - e / 2 ^ 51 \<le> X" unfolding e_def [symmetric] by (simp add: right_diff_distrib)
  moreover from hi have "X \<le> e + e / 2 ^ 51" unfolding e_def [symmetric] by (simp add: distrib_left)
  ultimately have "\<bar>X - e\<bar> \<le> e / 2 ^ 51" by linarith
  then have "\<bar>X - (p1 + p2 + p3)\<bar> \<le> (p1 + p2 + p3) / 2 ^ 51" unfolding e_def .
  then show ?thesis unfolding X_def A_def P1_def P2_def P3_def .
qed

section \<open>Properties\<close>

subsection \<open>Source credibility\<close>

text \<open>
  Claim C7. For all arguments, \<open>compute_S\<close> is the average of the credibility score and
  the source reputation, plus the verification bonus \<open>min (verification_count * 0.02) 0.1\<close>,
  cut off at \<open>1.0\<close> from above. Nothing cuts the result off from below: whenever the sum
  does not exceed \<open>1.0\<close> it is returned as it is, also when it is negative.
\<close>

theorem compute_S_formula:
  "compute_S credibility_score source_reputation verification_count =
     min ((credibility_score + source_reputation) / 2
          + min (of_int verification_count * (2 / 100)) (1 / 10)) 1
   \<and> ((credibility_score + source_reputation) / 2
          + min (of_int verification_count * (2 / 100)) (1 / 10) \<le> 1 \<longrightarrow>
      compute_S credibility_score source_reputation verification_count =
        (credibility_score + source_reputation) / 2
          + min (of_int verification_count * (2 / 100)) (1 / 10))"
  by (simp add: compute_S_def Let_def)

theorem compute_S_formula_witness:
  "((-3 + 1) / 2 + min (of_int 0 * (2 / 100)) (1 / 10) \<le> (1::real))
   \<and> compute_S (-3) 1 0 = -1"
  using compute_S_formula [of "-3" 1 0] by simp

subsection \<open>Content quality\<close>

text \<open>
  Claim C8. For all arguments, \<open>compute_C\<close> is the average of accuracy and completeness
  minus the bias score, cut off at \<open>0.0\<close> from below. Nothing cuts the result off from
  above: a difference that is not negative is returned as it is.
\<close>

theorem compute_C_formula:
  "compute_C accuracy completeness bias_score =
     max ((accuracy + completeness) / 2 - bias_score) 0
   \<and> (0 \<le> (accuracy + completeness) / 2 - bias_score \<longrightarrow>
      compute_C accuracy completeness bias_score =
        (accuracy + completeness) / 2 - bias_score)"
  by (simp add: compute_C_def Let_def)

theorem compute_C_formula_witness:
  "(0::real) \<le> (3 + 3) / 2 - 0 \<and> compute_C 3 3 0 = 3"
  using compute_C_formula [of 3 3 0] by simp

subsection \<open>Temporal relevance\<close>

text \<open>
  Claim C6. For all arguments, \<open>compute_T\<close> is
  \<open>min (max (1.0 - age_days * relevance_decay) 0.0 + min (update_frequency * 0.05) 0.15) 1.0\<close>.
  The decay is linear: without updates and while \<open>age_days * relevance_decay\<close> stays
  between 0 and 1, the score is \<open>1 - age_days * relevance_decay\<close>. For a decay rate
  other than 0 (for which \<open>1 / relevance_decay\<close> is defined), an age of
  \<open>1 / relevance_decay\<close> days makes the base term 0, and with no updates the score 0.
\<close>

theorem compute_T_formula:
  "compute_T age_days update_frequency relevance_decay =
     min (max (1 - age_days * relevance_decay) 0
          + min (of_int update_frequency * (5 / 100)) (15 / 100)) 1
   \<and> (0 \<le> age_days * relevance_decay \<and> age_days * relevance_decay \<le> 1 \<longrightarrow>
        compute_T age_days 0 relevance_decay = 1 - age_days * relevance_decay)
   \<and> (relevance_decay \<noteq> 0 \<longrightarrow>
        max (1 - (1 / relevance_decay) * relevance_decay) 0 = 0
        \<and> compute_T (1 / relevance_decay) 0 relevance_decay = 0)"
  by (simp add: compute_T_def Let_def)

theorem compute_T_formula_witness:
  "(0::real) \<le> 10 * (5 / 100) \<and> (10::real) * (5 / 100) \<le> 1
   \<and> compute_T 10 0 (5 / 100) = 1 / 2
   \<and> (5 / 100 :: real) \<noteq> 0
   \<and> compute_T (1 / (5 / 100)) 0 (5 / 100) = 0"
  using compute_T_formula [of 10 0 "5 / 100"] by simp

subsection \<open>Ranges of the component scores\<close>

text \<open>
  Claim C9. When every argument lies in its documented domain (the five ratings in
  \<open>[0, 1]\<close>, the two counts integers \<open>\<ge> 0\<close>, age and decay rate \<open>\<ge> 0\<close>), each of
  \<open>compute_S\<close>, \<open>compute_C\<close> and \<open>compute_T\<close> returns a value in \<open>[0, 1]\<close>.
\<close>

theorem component_scores_in_unit_interval:
  assumes "0 \<le> credibility_score" "credibility_score \<le> 1"
    and "0 \<le> source_reputation" "source_reputation \<le> 1"
    and "0 \<le> accuracy" "accuracy \<le> 1"
    and "0 \<le> completeness" "completeness \<le> 1"
    and "0 \<le> bias_score" "bias_score \<le> 1"
    and "0 \<le> verification_count" "0 \<le> update_frequency"
    and "0 \<le> age_days" "0 \<le> relevance_decay"
  shows "0 \<le> compute_S credibility_score source_reputation verification_count
         \<and> compute_S credibility_score source_reputation verification_count \<le> 1
         \<and> 0 \<le> compute_C accuracy completeness bias_score
         \<and> compute_C accuracy completeness bias_score \<le> 1
         \<and> 0 \<le> compute_T age_days update_frequency relevance_decay
         \<and> compute_T age_days update_frequency relevance_decay \<le> 1"
proof -
  from assms have base: "0 \<le> (credibility_score + source_reputation) / 2" by simp
  from assms have "0 \<le> real_of_int verification_count * (2 / 100)" by simp
  then have "0 \<le> min (real_of_int verification_count * (2 / 100)) (1 / 10)" by simp
  with base have S: "0 \<le> compute_S credibility_score source_reputation verification_count"
    by (simp add: compute_S_def Let_def)
  from assms have "accuracy + completeness \<le> 2 + 2 * bias_score" by linarith
  then have "(accuracy + completeness) / 2 - bias_score \<le> 1" by (simp add: field_simps)
  then have C: "compute_C accuracy completeness bias_score \<le> 1"
    by (simp add: compute_C_def Let_def)
  from assms have "0 \<le> real_of_int update_frequency * (5 / 100)" by simp
  then have "0 \<le> min (real_of_int update_frequency * (5 / 100)) (15 / 100)" by simp
  moreover have "0 \<le> max (1 - age_days * relevance_decay) 0" by simp
  ultimately have T: "0 \<le> compute_T age_days update_frequency relevance_decay"
    by (simp add: compute_T_def Let_def)
  have "compute_S credibility_score source_reputation verification_count \<le> 1"
    and "0 \<le> compute_C accuracy completeness bias_score"
    and "compute_T age_days update_frequency relevance_decay \<le> 1"
    by (simp_all add: compute_S_def compute_C_def compute_T_def Let_def)
  with S C T show ?thesis by simp
qed

theorem component_scores_in_unit_interval_witness:
  "0 \<le> compute_S (90 / 100) (95 / 100) 8 \<and> compute_S (90 / 100) (95 / 100) 8 \<le> 1
   \<and> 0 \<le> compute_C (92 / 100) (88 / 100) (5 / 100)
   \<and> compute_C (92 / 100) (88 / 100) (5 / 100) \<le> 1
   \<and> 0 \<le> compute_T 1 3 (5 / 100) \<and> compute_T 1 3 (5 / 100) \<le> 1"
  using component_scores_in_unit_interval
    [of "90 / 100" "95 / 100" "92 / 100" "88 / 100" "5 / 100" 8 3 1 "5 / 100"]
  by simp

subsection \<open>Saturation of the verification bonus\<close>

text \<open>
  Claim C10. From five verifications on, the bonus is at its cap \<open>0.1\<close>: for every
  integer \<open>verification_count \<ge> 5\<close>, \<open>compute_S\<close> returns what it returns for 5.
\<close>

theorem compute_S_saturates:
  assumes "5 \<le> verification_count"
  shows "compute_S credibility_score source_reputation verification_count =
         compute_S credibility_score source_reputation 5"
proof -
  from assms have "5 \<le> real_of_int verification_count" by simp
  then have "1 / 10 \<le> real_of_int verification_count * (2 / 100)" by simp
  then have "min (real_of_int verification_count * (2 / 100)) (1 / 10) = 1 / 10"
    by (simp add: min_def)
  then show ?thesis by (simp add: compute_S_def Let_def)
qed

theorem compute_S_saturates_witness:
  "(5::int) \<le> 10 \<and> compute_S (1 / 2) (6 / 10) 10 = compute_S (1 / 2) (6 / 10) 5"
  using compute_S_saturates [of 10 "1 / 2" "6 / 10"] by simp

subsection \<open>The documented example of \<open>compute_S\<close>\<close>

text \<open>
  Claim C5. The docstring of \<open>compute_S\<close> and the specification give
  \<open>compute_S(0.8, 0.9, 5) = 0.88\<close>. The function body computes
  \<open>(0.8 + 0.9) / 2 + min (5 * 0.02) 0.1 = 0.85 + 0.1 = 0.95\<close>, which is \<open>0.95\<close> at two
  decimals and not \<open>0.88\<close>.
\<close>

theorem compute_S_documented_example:
  "compute_S (8 / 10) (9 / 10) 5 = 95 / 100
   \<and> py_round (compute_S (8 / 10) (9 / 10) 5) 2 = 95 / 100
   \<and> py_round (compute_S (8 / 10) (9 / 10) 5) 2 \<noteq> 88 / 100"
proof -
  have v: "compute_S (8 / 10) (9 / 10) 5 = 95 / 100"
    by (simp add: compute_S_def Let_def)
  have r: "py_round (95 / 100) 2 = 95 / 100"
    by (simp add: py_round_def round_half_even_def Let_def)
  show ?thesis unfolding v r by simp
qed

subsection \<open>The weight check\<close>

text \<open>
  Claim C2, as stated: \<open>calculate_VRS\<close> fails exactly when \<open>\<bar>w1 + w2 + w3 - 1.0\<bar> > 0.01\<close>
  and returns for every weight triple within that tolerance. This fails at the weights
  \<open>(0.33, 0.33, 0.33)\<close>: the sum of the three binary64 numbers, like the sum of the three
  decimals, is within \<open>0.01\<close> of 1, but the binary64 sum is the binary64 number \<open>0.99\<close>,
  whose binary64 distance from \<open>1.0\<close> exceeds the binary64 number \<open>0.01\<close>, and the call
  fails.
\<close>

theorem calculate_VRS_tolerance_counterexample:
  "\<bar>b64 (33 / 100) + b64 (33 / 100) + b64 (33 / 100) - 1\<bar> \<le> 1 / 100
   \<and> \<bar>b64 (33 / 100) + b64 (33 / 100) + b64 (33 / 100) - 1\<bar> \<le> b64 (1 / 100)
   \<and> \<bar>33 / 100 + 33 / 100 + 33 / 100 - (1::real)\<bar> \<le> 1 / 100
   \<and> calculate_VRS 1 1 1 (b64 (33 / 100)) (b64 (33 / 100)) (b64 (33 / 100))
       = Inl (InvalidWeights (b64 (99 / 100)))"
  by code_simp

text \<open>
  Claim C2, amended: \<open>calculate_VRS\<close> fails with InvalidWeights exactly when the binary64
  value of \<^verbatim>\<open>abs((w1 + w2 + w3) - 1.0)\<close> exceeds the binary64 number \<open>0.01\<close>, whatever
  \<open>S\<close>, \<open>C\<close> and \<open>T\<close> are, and returns a score otherwise; \<open>calculate_VRS_from_raw\<close> fails
  under the same condition, and nothing else in the module fails. For weights that are
  not negative this agrees with the exact condition outside a band of \<open>10 ^ (-15)\<close>
  around the threshold: the call returns when \<open>\<bar>w1 + w2 + w3 - 1\<bar> \<le> 0.01 - 10 ^ (-15)\<close> and
  fails when \<open>\<bar>w1 + w2 + w3 - 1\<bar> \<ge> 0.01 + 10 ^ (-15)\<close>.
\<close>

theorem calculate_VRS_fails_iff:
  "(calculate_VRS S C T w1 w2 w3 = Inl (InvalidWeights (b64 (b64 (w1 + w2) + w3))))
     = (\<bar>b64 (b64 (b64 (w1 + w2) + w3) - 1)\<bar> > b64 (1 / 100))
   \<and> isl (calculate_VRS S C T w1 w2 w3)
       = (\<bar>b64 (b64 (b64 (w1 + w2) + w3) - 1)\<bar> > b64 (1 / 100))
   \<and> (\<exists>v. calculate_VRS S C T w1 w2 w3 = Inr v)
       = (\<bar>b64 (b64 (b64 (w1 + w2) + w3) - 1)\<bar> \<le> b64 (1 / 100))
   \<and> isl (calculate_VRS_from_raw credibility_score source_reputation verification_count
             accuracy completeness bias_score age_days update_frequency relevance_decay
             w1 w2 w3)
       = (\<bar>b64 (b64 (b64 (w1 + w2) + w3) - 1)\<bar> > b64 (1 / 100))
   \<and> (0 \<le> w1 \<and> 0 \<le> w2 \<and> 0 \<le> w3 \<and> \<bar>w1 + w2 + w3 - 1\<bar> \<le> 1 / 100 - 1 / 10 ^ 15 \<longrightarrow>
        (\<exists>v. calculate_VRS S C T w1 w2 w3 = Inr v))
   \<and> (0 \<le> w1 \<and> 0 \<le> w2 \<and> 0 \<le> w3 \<and> 1 / 100 + 1 / 10 ^ 15 \<le> \<bar>w1 + w2 + w3 - 1\<bar> \<longrightarrow>
        isl (calculate_VRS S C T w1 w2 w3))"
proof -
  have iff: "(calculate_VRS S C T w1 w2 w3 = Inl (InvalidWeights (b64 (b64 (w1 + w2) + w3))))
      = (\<bar>b64 (b64 (b64 (w1 + w2) + w3) - 1)\<bar> > b64 (1 / 100))"
    "isl (calculate_VRS S C T w1 w2 w3)
      = (\<bar>b64 (b64 (b64 (w1 + w2) + w3) - 1)\<bar> > b64 (1 / 100))"
    "(\<exists>v. calculate_VRS S C T w1 w2 w3 = Inr v)
      = (\<bar>b64 (b64 (b64 (w1 + w2) + w3) - 1)\<bar> \<le> b64 (1 / 100))"
    "isl (calculate_VRS_from_raw credibility_score source_reputation verification_count
             accuracy completeness bias_score age_days update_frequency relevance_decay
             w1 w2 w3)
       = (\<bar>b64 (b64 (b64 (w1 + w2) + w3) - 1)\<bar> > b64 (1 / 100))"
    by (simp_all add: calculate_VRS_def calculate_VRS_from_raw_def Let_def not_less)
  have near: "\<exists>v. calculate_VRS S C T w1 w2 w3 = Inr v"
    if "0 \<le> w1" "0 \<le> w2" "0 \<le> w3" "\<bar>w1 + w2 + w3 - 1\<bar> \<le> 1 / 100 - 1 / 10 ^ 15"
    using weights_near_one_accepted [OF that] iff(3) by simp
  have far: "isl (calculate_VRS S C T w1 w2 w3)"
    if "0 \<le> w1" "0 \<le> w2" "0 \<le> w3" "1 / 100 + 1 / 10 ^ 15 \<le> \<bar>w1 + w2 + w3 - 1\<bar>"
    using weights_far_from_one_rejected [OF that] iff(2) by simp
  from iff near far show ?thesis by blast
qed

theorem calculate_VRS_fails_iff_witness:
  "0 \<le> b64 (4 / 10) \<and> 0 \<le> b64 (2 / 10)
   \<and> \<bar>b64 (4 / 10) + b64 (4 / 10) + b64 (2 / 10) - 1\<bar> \<le> 1 / 100 - 1 / 10 ^ 15
   \<and> (\<exists>v. calculate_VRS (8 / 10) (7 / 10) (9 / 10) (b64 (4 / 10)) (b64 (4 / 10)) (b64 (2 / 10))
          = Inr v)
   \<and> 1 / 100 + 1 / 10 ^ 15 \<le> \<bar>1 / 2 + 1 / 2 + 1 / 2 - (1::real)\<bar>
   \<and> isl (calculate_VRS (1 / 2) (1 / 2) (1 / 2) (1 / 2) (1 / 2) (1 / 2))"
proof -
  have a: "0 \<le> b64 (4 / 10)" "0 \<le> b64 (2 / 10)"
    "\<bar>b64 (4 / 10) + b64 (4 / 10) + b64 (2 / 10) - 1\<bar> \<le> 1 / 100 - 1 / 10 ^ 15"
    by code_simp+
  have b: "(0::real) \<le> 1 / 2" "1 / 100 + 1 / 10 ^ 15 \<le> \<bar>1 / 2 + 1 / 2 + 1 / 2 - (1::real)\<bar>"
    by simp_all
  from a b
    calculate_VRS_fails_iff [where S = "8 / 10" and C = "7 / 10" and T = "9 / 10"
      and ?w1.0 = "b64 (4 / 10)" and ?w2.0 = "b64 (4 / 10)" and ?w3.0 = "b64 (2 / 10)"]
    calculate_VRS_fails_iff [where S = "1 / 2" and C = "1 / 2" and T = "1 / 2"
      and ?w1.0 = "1 / 2" and ?w2.0 = "1 / 2" and ?w3.0 = "1 / 2"]
  show ?thesis by blast
qed

subsection \<open>The rounding of the final score\<close>

text \<open>
  Claim C3, as stated: the result is \<open>w1 * S + w2 * C + w3 * T\<close> rounded half to even to
  two decimals. This fails at \<open>S = C = 0\<close>, \<open>T = 0.625\<close> with the default weights: the
  exact weighted sum of the binary64 arguments lies above the tie \<open>0.125\<close> and rounds to
  \<open>0.13\<close>, but the binary64 product \<open>0.2 * 0.625\<close> is the tie \<open>0.125\<close> itself, and the
  function returns \<open>0.12\<close>.
\<close>

theorem calculate_VRS_exact_sum_counterexample:
  "round_half_even ((b64 (4 / 10) * 0 + b64 (4 / 10) * 0 + b64 (2 / 10) * (5 / 8)) * 100) = 13
   \<and> calculate_VRS 0 0 (5 / 8) (b64 (4 / 10)) (b64 (4 / 10)) (b64 (2 / 10))
       = Inr (b64 (12 / 100))
   \<and> b64 (12 / 100) < b64 (13 / 100)"
  by code_simp

text \<open>
  Claim C3, amended: when the weight check passes, \<open>calculate_VRS\<close> returns the binary64
  value of \<^verbatim>\<open>(w1 * S) + (w2 * C) + (w3 * T)\<close>, each product and each sum rounded to
  binary64, rounded half to even to two decimals: the binary64 number nearest to \<open>k / 100\<close>
  for the one integer \<open>k\<close> that is nearest to a hundred times that value, the even one of
  the two at a tie. Nothing clamps the result. When the three products are not negative,
  the value that is rounded lies within \<open>2 ^ (-51)\<close> of the exact sum, relatively.
\<close>

theorem calculate_VRS_rounds_binary64_sum:
  assumes "\<bar>b64 (b64 (b64 (w1 + w2) + w3) - 1)\<bar> \<le> b64 (1 / 100)"
  shows "calculate_VRS S C T w1 w2 w3 =
           Inr (b64 (of_int (round_half_even
                  (b64 (b64 (b64 (w1 * S) + b64 (w2 * C)) + b64 (w3 * T)) * 100)) / 100))
         \<and> nearest_ties_even (b64 (b64 (b64 (w1 * S) + b64 (w2 * C)) + b64 (w3 * T)) * 100)
             (round_half_even (b64 (b64 (b64 (w1 * S) + b64 (w2 * C)) + b64 (w3 * T)) * 100))
         \<and> (\<forall>k. nearest_ties_even
                  (b64 (b64 (b64 (w1 * S) + b64 (w2 * C)) + b64 (w3 * T)) * 100) k \<longrightarrow>
                k = round_half_even
                  (b64 (b64 (b64 (w1 * S) + b64 (w2 * C)) + b64 (w3 * T)) * 100))
         \<and> (0 \<le> w1 * S \<and> 0 \<le> w2 * C \<and> 0 \<le> w3 * T \<longrightarrow>
              \<bar>b64 (b64 (b64 (w1 * S) + b64 (w2 * C)) + b64 (w3 * T))
                 - (w1 * S + w2 * C + w3 * T)\<bar>
              \<le> (w1 * S + w2 * C + w3 * T) / 2 ^ 51)"
proof -
  let ?x = "b64 (b64 (b64 (w1 * S) + b64 (w2 * C)) + b64 (w3 * T))"
  from assms have "\<not> \<bar>b64 (b64 (b64 (w1 + w2) + w3) - 1)\<bar> > b64 (1 / 100)" by simp
  then have ret: "calculate_VRS S C T w1 w2 w3 =
      Inr (b64 (of_int (round_half_even (?x * 100)) / 100))"
    by (simp add: calculate_VRS_def py_round_def Let_def)
  have near: "nearest_ties_even (?x * 100) (round_half_even (?x * 100))"
    by (rule round_half_even_nearest)
  have uniq: "\<forall>k. nearest_ties_even (?x * 100) k \<longrightarrow> k = round_half_even (?x * 100)"
    using nearest_ties_even_unique near by blast
  have close: "\<bar>?x - (w1 * S + w2 * C + w3 * T)\<bar> \<le> (w1 * S + w2 * C + w3 * T) / 2 ^ 51"
    if "0 \<le> w1 * S" "0 \<le> w2 * C" "0 \<le> w3 * T"
    using that by (rule binary64_weighted_sum_close)
  from ret near uniq close show ?thesis by blast
qed

theorem calculate_VRS_rounds_binary64_sum_witness:
  "\<bar>b64 (b64 (b64 (b64 (4 / 10) + b64 (4 / 10)) + b64 (2 / 10)) - 1)\<bar> \<le> b64 (1 / 100)
   \<and> calculate_VRS (1 / 8) (1 / 8) (1 / 8) (b64 (4 / 10)) (b64 (4 / 10)) (b64 (2 / 10))
       = Inr (b64 (12 / 100))
   \<and> nearest_ties_even (25 / 2) 12
   \<and> round_half_even (25 / 2) = 12
   \<and> 0 \<le> b64 (4 / 10) * (1 / 8) \<and> 0 \<le> b64 (2 / 10) * (1 / 8)"
proof -
  have h: "\<bar>b64 (b64 (b64 (b64 (4 / 10) + b64 (4 / 10)) + b64 (2 / 10)) - 1)\<bar> \<le> b64 (1 / 100)"
    by code_simp
  have x: "b64 (b64 (b64 (b64 (4 / 10) * (1 / 8)) + b64 (b64 (4 / 10) * (1 / 8)))
             + b64 (b64 (2 / 10) * (1 / 8))) * 100 = 25 / 2"
    by code_simp
  have e: "round_half_even (25 / 2) = 12" by code_simp
  have p: "0 \<le> b64 (4 / 10) * (1 / 8)" "0 \<le> b64 (2 / 10) * (1 / 8)" by code_simp+
  from calculate_VRS_rounds_binary64_sum [OF h, where S = "1 / 8" and C = "1 / 8" and T = "1 / 8"]
  have "calculate_VRS (1 / 8) (1 / 8) (1 / 8) (b64 (4 / 10)) (b64 (4 / 10)) (b64 (2 / 10))
       = Inr (b64 (of_int (round_half_even (25 / 2)) / 100))"
    and "nearest_ties_even (25 / 2) (round_half_even (25 / 2))"
    unfolding x by blast+
  with h e p show ?thesis by simp
qed

subsection \<open>The convenience function\<close>

text \<open>
  Claim C4. For all arguments, \<open>calculate_VRS_from_raw\<close> returns what \<open>calculate_VRS\<close>
  returns on the three component scores of its raw arguments and the same weights; in
  particular a failure of \<open>calculate_VRS\<close> is the failure of \<open>calculate_VRS_from_raw\<close>,
  with the same error value.
\<close>

theorem calculate_VRS_from_raw_composes:
  "calculate_VRS_from_raw credibility_score source_reputation verification_count
       accuracy completeness bias_score age_days update_frequency relevance_decay w1 w2 w3
     = calculate_VRS (compute_S credibility_score source_reputation verification_count)
         (compute_C accuracy completeness bias_score)
         (compute_T age_days update_frequency relevance_decay) w1 w2 w3
   \<and> (\<forall>e. calculate_VRS (compute_S credibility_score source_reputation verification_count)
             (compute_C accuracy completeness bias_score)
             (compute_T age_days update_frequency relevance_decay) w1 w2 w3 = Inl e \<longrightarrow>
          calculate_VRS_from_raw credibility_score source_reputation verification_count
            accuracy completeness bias_score age_days update_frequency relevance_decay
            w1 w2 w3 = Inl e)"
  by (simp add: calculate_VRS_from_raw_def Let_def)

theorem calculate_VRS_from_raw_composes_witness:
  "calculate_VRS (compute_S (8 / 10) (9 / 10) 5) (compute_C (9 / 10) (8 / 10) (1 / 10))
       (compute_T 0 0 (5 / 100)) (1 / 2) (1 / 2) (1 / 2) = Inl (InvalidWeights (3 / 2))
   \<and> calculate_VRS_from_raw (8 / 10) (9 / 10) 5 (9 / 10) (8 / 10) (1 / 10) 0 0 (5 / 100)
       (1 / 2) (1 / 2) (1 / 2) = Inl (InvalidWeights (3 / 2))"
proof -
  have h: "calculate_VRS (compute_S (8 / 10) (9 / 10) 5) (compute_C (9 / 10) (8 / 10) (1 / 10))
       (compute_T 0 0 (5 / 100)) (1 / 2) (1 / 2) (1 / 2) = Inl (InvalidWeights (3 / 2))"
    by code_simp
  from calculate_VRS_from_raw_composes
    [of "8 / 10" "9 / 10" 5 "9 / 10" "8 / 10" "1 / 10" 0 0 "5 / 100" "1 / 2" "1 / 2" "1 / 2"] h
  show ?thesis by simp
qed

subsection \<open>What is clamped and what is not\<close>

text \<open>
  Claim C1, as stated: every component score and the final score lies in \<open>[0, 1]\<close> for
  every numeric input. This fails: \<open>compute_S\<close> has no lower clamp, \<open>compute_C\<close> has no
  upper clamp, the update bonus of \<open>compute_T\<close> is negative for a negative update
  count, and \<open>calculate_VRS\<close> clamps nothing, so that the weights \<open>(0.4, 0.4, 0.208)\<close>,
  which pass the weight check, give the final score \<open>1.01\<close> on component scores
  \<open>S = C = T = 1\<close>.
\<close>

theorem scores_not_clamped_counterexample:
  "compute_S (-1) (-1) 0 = -1
   \<and> compute_C 2 2 0 = 2
   \<and> compute_T 100 (-100) (5 / 100) = -5
   \<and> calculate_VRS 1 1 1 (b64 (4 / 10)) (b64 (4 / 10)) (b64 (208 / 1000))
       = Inr (b64 (101 / 100))
   \<and> 101 / 100 \<le> b64 (101 / 100)"
proof -
  have "compute_S (-1) (-1) 0 = -1" by (simp add: compute_S_def Let_def)
  moreover have "compute_C 2 2 0 = 2" by (simp add: compute_C_def Let_def)
  moreover have "compute_T 100 (-100) (5 / 100) = -5" by (simp add: compute_T_def Let_def)
  moreover have "calculate_VRS 1 1 1 (b64 (4 / 10)) (b64 (4 / 10)) (b64 (208 / 1000))
       = Inr (b64 (101 / 100))"
    by code_simp
  moreover have "101 / 100 \<le> b64 (101 / 100)" by code_simp
  ultimately show ?thesis by simp
qed

text \<open>
  Claim C1, amended: for every input, \<open>compute_S\<close> and \<open>compute_T\<close> are at most \<open>1.0\<close>
  and \<open>compute_C\<close> is at least \<open>0.0\<close>. When \<open>S\<close>, \<open>C\<close> and \<open>T\<close> lie in \<open>[0, 1]\<close>, the
  weights are binary64 numbers that are not negative, and the weight check passes, the
  final score lies between \<open>0.0\<close> and the binary64 number \<open>1.01\<close>; it is at most \<open>1.0\<close>
  when moreover the weights sum to at most 1, in binary64 or exactly.
\<close>

theorem scores_clamped_sides:
  "compute_S credibility_score source_reputation verification_count \<le> 1
   \<and> 0 \<le> compute_C accuracy completeness bias_score
   \<and> compute_T age_days update_frequency relevance_decay \<le> 1
   \<and> (0 \<le> S \<and> S \<le> 1 \<and> 0 \<le> C \<and> C \<le> 1 \<and> 0 \<le> T \<and> T \<le> 1
      \<and> 0 \<le> w1 \<and> 0 \<le> w2 \<and> 0 \<le> w3 \<and> b64 w1 = w1 \<and> b64 w2 = w2 \<and> b64 w3 = w3
      \<and> \<bar>b64 (b64 (b64 (w1 + w2) + w3) - 1)\<bar> \<le> b64 (1 / 100) \<longrightarrow>
      (\<exists>v. calculate_VRS S C T w1 w2 w3 = Inr v \<and> 0 \<le> v \<and> v \<le> b64 (101 / 100)
           \<and> (b64 (b64 (w1 + w2) + w3) \<le> 1 \<longrightarrow> v \<le> 1)
           \<and> (w1 + w2 + w3 \<le> 1 \<longrightarrow> v \<le> 1)))"
proof -
  have sides: "compute_S credibility_score source_reputation verification_count \<le> 1"
    "0 \<le> compute_C accuracy completeness bias_score"
    "compute_T age_days update_frequency relevance_decay \<le> 1"
    by (simp_all add: compute_S_def compute_C_def compute_T_def Let_def)
  have final: "\<exists>v. calculate_VRS S C T w1 w2 w3 = Inr v \<and> 0 \<le> v \<and> v \<le> b64 (101 / 100)
           \<and> (b64 (b64 (w1 + w2) + w3) \<le> 1 \<longrightarrow> v \<le> 1)
           \<and> (w1 + w2 + w3 \<le> 1 \<longrightarrow> v \<le> 1)"
    if dom: "0 \<le> S" "S \<le> 1" "0 \<le> C" "C \<le> 1" "0 \<le> T" "T \<le> 1"
      and w: "0 \<le> w1" "0 \<le> w2" "0 \<le> w3"
      and rep: "b64 w1 = w1" "b64 w2 = w2" "b64 w3 = w3"
      and tol: "\<bar>b64 (b64 (b64 (w1 + w2) + w3) - 1)\<bar> \<le> b64 (1 / 100)"
  proof -
    let ?x = "b64 (b64 (b64 (w1 * S) + b64 (w2 * C)) + b64 (w3 * T))"
    let ?s = "b64 (b64 (w1 + w2) + w3)"
    from tol have "\<not> \<bar>b64 (?s - 1)\<bar> > b64 (1 / 100)" by simp
    then have ret: "calculate_VRS S C T w1 w2 w3 = Inr (b64 (py_round ?x 2))"
      by (simp add: calculate_VRS_def Let_def)
    have lo: "0 \<le> ?x" and hi: "?x \<le> ?s"
      using dom w rep by (rule binary64_sum_bounds)+
    from lo have "of_int 0 / 100 \<le> ?x" by simp
    then have "of_int 0 / 100 \<le> py_round ?x 2" by (rule py_round_2_ge)
    then have "0 \<le> py_round ?x 2" by simp
    then have r0: "0 \<le> b64 (py_round ?x 2)" by (rule b64_nonneg)
    from tol have "?s \<le> 1 + 3 / 256" by (rule accepted_sum_below)
    with hi have "?x * 100 < of_int 101 + 1 / 2" by simp
    then have "round_half_even (?x * 100) \<le> 101" by (rule round_half_even_below_half)
    then have "real_of_int (round_half_even (?x * 100)) \<le> 101" by simp
    then have "py_round ?x 2 \<le> 101 / 100" by (simp add: py_round_def)
    then have r1: "b64 (py_round ?x 2) \<le> b64 (101 / 100)" by (rule b64_mono)
    have one: "b64 (py_round ?x 2) \<le> 1" if "?s \<le> 1"
    proof -
      from hi that have "?x \<le> of_int 100 / 100" by simp
      then have "py_round ?x 2 \<le> of_int 100 / 100" by (rule py_round_2_le)
      then have "py_round ?x 2 \<le> 1" by simp
      then have "b64 (py_round ?x 2) \<le> b64 1" by (rule b64_mono)
      then show ?thesis by (simp only: b64_one)
    qed
    have "?s \<le> 1" if "w1 + w2 + w3 \<le> 1"
      using w that by (rule exact_sum_le_one)
    with one have one': "b64 (py_round ?x 2) \<le> 1" if "w1 + w2 + w3 \<le> 1"
      using that by blast
    from ret r0 r1 one one' show ?thesis by blast
  qed
  from sides final show ?thesis by blast
qed

theorem scores_clamped_sides_witness:
  "compute_S 7 7 7 \<le> 1 \<and> 0 \<le> compute_C (-7) (-7) 7 \<and> compute_T (-7) 7 7 \<le> 1
   \<and> 0 \<le> b64 (4 / 10) \<and> 0 \<le> b64 (2 / 10)
   \<and> b64 (b64 (4 / 10)) = b64 (4 / 10) \<and> b64 (b64 (2 / 10)) = b64 (2 / 10)
   \<and> \<bar>b64 (b64 (b64 (b64 (4 / 10) + b64 (4 / 10)) + b64 (2 / 10)) - 1)\<bar> \<le> b64 (1 / 100)
   \<and> b64 (b64 (b64 (4 / 10) + b64 (4 / 10)) + b64 (2 / 10)) \<le> 1
   \<and> (\<exists>v. calculate_VRS (8 / 10) (7 / 10) (9 / 10) (b64 (4 / 10)) (b64 (4 / 10)) (b64 (2 / 10))
            = Inr v \<and> 0 \<le> v \<and> v \<le> 1)"
proof -
  have h: "0 \<le> b64 (4 / 10)" "0 \<le> b64 (2 / 10)"
    "b64 (b64 (4 / 10)) = b64 (4 / 10)" "b64 (b64 (2 / 10)) = b64 (2 / 10)"
    "\<bar>b64 (b64 (b64 (b64 (4 / 10) + b64 (4 / 10)) + b64 (2 / 10)) - 1)\<bar> \<le> b64 (1 / 100)"
    "b64 (b64 (b64 (4 / 10) + b64 (4 / 10)) + b64 (2 / 10)) \<le> 1"
    by code_simp+
  have d: "(0::real) \<le> 8 / 10" "(8 / 10 :: real) \<le> 1" "(0::real) \<le> 7 / 10"
    "(7 / 10 :: real) \<le> 1" "(0::real) \<le> 9 / 10" "(9 / 10 :: real) \<le> 1"
    by simp_all
  from h d
    scores_clamped_sides [where credibility_score = 7 and source_reputation = 7
      and verification_count = 7 and accuracy = "- 7" and completeness = "- 7"
      and bias_score = 7 and age_days = "- 7" and update_frequency = 7
      and relevance_decay = 7 and S = "8 / 10" and C = "7 / 10" and T = "9 / 10"
      and ?w1.0 = "b64 (4 / 10)" and ?w2.0 = "b64 (4 / 10)" and ?w3.0 = "b64 (2 / 10)"]
  show ?thesis by blast
qed

end
